theory Spec2Isabelle
  imports Main "HOL-Library.Sublist"
begin

section \<open>Data model (types/chat.types.ts)\<close>

text \<open>
  Strings are \<open>string\<close>: a \<open>char\<close> stands for a UTF-16 code unit below 256 (the
  Latin-1 range), so strings with other code units are outside the model. A
  \<open>Date\<close> is the integer of its \<open>getTime()\<close>, the
  milliseconds since the epoch; the ISO text written by \<open>JSON.stringify\<close> and read
  back by \<open>new Date(...)\<close> denotes the same integer. The field \<open>id\<close> of a message
  and of a thread is written \<open>msg_id\<close> and \<open>thread_id\<close>, since \<open>id\<close> is the
  identity function of HOL.
\<close>

datatype ChatMessageRole = User | Assistant | System

record ChatMessage =
  msg_id :: string
  role :: ChatMessageRole
  content :: string
  timestamp :: int

record ChatThread =
  thread_id :: string
  title :: string
  messages :: "ChatMessage list"
  createdAt :: int
  updatedAt :: int

text \<open>The state of the zustand store \<open>useThreadStore\<close>; \<open>None\<close> is \<open>null\<close>.\<close>

record ThreadStore =
  threads :: "ChatThread list"
  currentThreadId :: "string option"

section \<open>JavaScript and lodash primitives\<close>

text \<open>
  \<open>String.prototype.trim\<close> strips white space and line terminators. Among the code
  units below 256 these are tab, line feed, vertical tab, form feed, carriage return,
  space and the no-break space U+00A0; the others (U+FEFF, U+2028, U+2029 and the
  space separators from U+1680 on) lie beyond the code units of the model.
\<close>

definition is_white_space :: "char \<Rightarrow> bool" where
  "is_white_space c = (c \<in> set [CHR 0x09, CHR 0x0A, CHR 0x0B, CHR 0x0C, CHR 0x0D, CHR 0x20, CHR 0xA0])"

definition trim :: "string \<Rightarrow> string" where
  "trim s = rev (dropWhile is_white_space (rev (dropWhile is_white_space s)))"

text \<open>The decimal text of a number, as string concatenation \<open>prefix + n\<close> produces it.\<close>

definition digit_char :: "nat \<Rightarrow> char" where
  "digit_char d = char_of (48 + d)"

fun decimal :: "nat \<Rightarrow> string" where
  "decimal n = (if n < 10 then [digit_char n] else decimal (n div 10) @ [digit_char (n mod 10)])"

declare decimal.simps [simp del]

text \<open>
  lodash \<open>uniqueId(prefix)\<close>: \<open>prefix + (++idCounter)\<close>, on one counter shared by every
  prefix and starting at 0 when the page loads. The counter is passed in and returned.
\<close>

definition uniqueId :: "string \<Rightarrow> nat \<Rightarrow> string \<times> nat" where
  "uniqueId pre idCounter = (pre @ decimal (Suc idCounter), Suc idCounter)"

section \<open>utils/thread.utils.ts\<close>

definition generateMessageId :: "nat \<Rightarrow> string \<times> nat" where
  "generateMessageId idCounter = uniqueId ''msg_'' idCounter"

definition generateThreadTitle :: "ChatMessage list \<Rightarrow> string" where
  "generateThreadTitle msgs =
     (case find (\<lambda>msg. role msg = User) msgs of
        None \<Rightarrow> ''New Chat''
      | Some firstUserMessage \<Rightarrow>
          if trim (content firstUserMessage) \<noteq> [] then
            (let title = take 50 (trim (content firstUserMessage))
             in if length title < length (trim (content firstUserMessage))
                then title @ ''...'' else title)
          else ''New Chat'')"

section \<open>stores/thread.store.ts\<close>

text \<open>
  Every action takes the store state and returns the new one. \<open>now\<close> is the instant
  that \<open>new Date()\<close> reads during the call, which is synchronous and taken to finish
  within one tick of the clock. An optional argument is an \<open>option\<close>, \<open>None\<close> for
  \<open>undefined\<close>; \<open>x || y\<close> on strings takes \<open>y\<close> when \<open>x\<close> is undefined or empty.
\<close>

definition getThreadsStorageKey :: "string \<Rightarrow> string" where
  "getThreadsStorageKey userId = ''chat_threads_'' @ userId"

definition createThread :: "string option \<Rightarrow> int \<Rightarrow> nat \<Rightarrow> ThreadStore \<Rightarrow> string \<times> nat \<times> ThreadStore" where
  "createThread title_opt now idCounter state =
     (let (threadId, idCounter') = uniqueId ''thread_'' idCounter;
          newThread = \<lparr> thread_id = threadId,
                        title = (case title_opt of
                                   None \<Rightarrow> ''New Chat''
                                 | Some t \<Rightarrow> if t \<noteq> [] then t else ''New Chat''),
                        messages = [], createdAt = now, updatedAt = now \<rparr>
      in (threadId, idCounter',
          state\<lparr> threads := newThread # threads state, currentThreadId := Some threadId \<rparr>))"

definition getThread :: "ThreadStore \<Rightarrow> string \<Rightarrow> ChatThread option" where
  "getThread state i = find (\<lambda>thread. thread_id thread = i) (threads state)"

definition getCurrentThread :: "ThreadStore \<Rightarrow> ChatThread option" where
  "getCurrentThread state =
     (case currentThreadId state of
        None \<Rightarrow> None
      | Some c \<Rightarrow> if c = [] then None else find (\<lambda>thread. thread_id thread = c) (threads state))"

definition setCurrentThread :: "string \<Rightarrow> ThreadStore \<Rightarrow> ThreadStore" where
  "setCurrentThread i state = state\<lparr> currentThreadId := Some i \<rparr>"

text \<open>The callback of \<open>state.threads.map\<close> in \<open>addMessage\<close>, for one thread.\<close>

definition addMessage_thread :: "string \<Rightarrow> ChatMessage \<Rightarrow> int \<Rightarrow> ChatThread \<Rightarrow> ChatThread" where
  "addMessage_thread threadId newMessage now thread =
     (if thread_id thread = threadId then
        (if list_ex (\<lambda>msg. msg_id msg = msg_id newMessage) (messages thread) then thread
         else
           (let updatedThread = thread\<lparr> messages := messages thread @ [newMessage],
                                        updatedAt := now \<rparr>
            in if title thread = ''New Chat'' \<and> role newMessage = User
               then updatedThread\<lparr> title := generateThreadTitle (messages updatedThread) \<rparr>
               else updatedThread))
      else thread)"

text \<open>
  \<open>addMessage(threadId, {role, content}, messageId?)\<close>. The id is
  \<open>messageId || generateMessageId()\<close>: the counter moves only when the id is generated.
\<close>

definition addMessage ::
  "string \<Rightarrow> ChatMessageRole \<Rightarrow> string \<Rightarrow> string option \<Rightarrow> int \<Rightarrow> nat \<Rightarrow> ThreadStore \<Rightarrow> nat \<times> ThreadStore" where
  "addMessage threadId r c messageId now idCounter state =
     (let (newId, idCounter') =
            (case messageId of
               None \<Rightarrow> generateMessageId idCounter
             | Some m \<Rightarrow> if m \<noteq> [] then (m, idCounter) else generateMessageId idCounter);
          newMessage = \<lparr> msg_id = newId, role = r, content = c, timestamp = now \<rparr>
      in (idCounter',
          state\<lparr> threads := map (addMessage_thread threadId newMessage now) (threads state) \<rparr>))"

definition updateMessage :: "string \<Rightarrow> string \<Rightarrow> string \<Rightarrow> int \<Rightarrow> ThreadStore \<Rightarrow> ThreadStore" where
  "updateMessage threadId messageId c now state =
     state\<lparr> threads :=
       map (\<lambda>thread.
              if thread_id thread = threadId then
                thread\<lparr> messages := map (\<lambda>msg. if msg_id msg = messageId
                                                then msg\<lparr> content := c \<rparr> else msg)
                                         (messages thread),
                        updatedAt := now \<rparr>
              else thread)
           (threads state) \<rparr>"

definition renameThread :: "string \<Rightarrow> string \<Rightarrow> ThreadStore \<Rightarrow> ThreadStore" where
  "renameThread threadId newTitle state =
     state\<lparr> threads :=
       map (\<lambda>thread.
              if thread_id thread = threadId
              then thread\<lparr> title := (if trim newTitle \<noteq> [] then trim newTitle else ''New Chat'') \<rparr>
              else thread)
           (threads state) \<rparr>"

definition deleteThread :: "string \<Rightarrow> ThreadStore \<Rightarrow> ThreadStore" where
  "deleteThread threadId state =
     (let remainingThreads = filter (\<lambda>thread. thread_id thread \<noteq> threadId) (threads state);
          newCurrentThreadId =
            (if currentThreadId state = Some threadId then
               (case remainingThreads of [] \<Rightarrow> None | t # _ \<Rightarrow> Some (thread_id t))
             else currentThreadId state)
      in \<lparr> threads = remainingThreads, currentThreadId = newCurrentThreadId \<rparr>)"

definition clearThreads :: "ThreadStore \<Rightarrow> ThreadStore" where
  "clearThreads state = \<lparr> threads = [], currentThreadId = None \<rparr>"

subsection \<open>Persistence\<close>

text \<open>
  \<open>localStorage\<close> maps a key to a text. A text is represented by what the \<open>try\<close> block
  of \<open>loadThreads\<close> makes of it: the empty text is falsy and is not parsed;
  \<open>Thread_Array ts\<close> is a text that \<open>JSON.parse\<close> turns into the array \<open>ts\<close> of
  threads (what \<open>JSON.stringify\<close> writes for \<open>ts\<close>); \<open>Not_Thread_Array\<close> is any other
  text, on which \<open>JSON.parse\<close> or \<open>parsed.map\<close> throws. \<open>setItem\<close> throws when the
  quota is exceeded, which \<open>writable\<close> decides.
\<close>

datatype stored_text = Empty_Text | Not_Thread_Array | Thread_Array "ChatThread list"

record LocalStorage =
  items :: "string \<rightharpoonup> stored_text"
  writable :: bool

definition getItem :: "LocalStorage \<Rightarrow> string \<Rightarrow> stored_text option" where
  "getItem ls k = items ls k"

text \<open>\<open>None\<close> is the exception thrown by \<open>setItem\<close>.\<close>

definition setItem :: "LocalStorage \<Rightarrow> string \<Rightarrow> stored_text \<Rightarrow> LocalStorage option" where
  "setItem ls k v = (if writable ls then Some (ls\<lparr> items := (items ls)(k \<mapsto> v) \<rparr>) else None)"

text \<open>
  The filter with the set \<open>seenMessageIds\<close>, written twice in the source (in
  \<open>loadThreads\<close> and in \<open>saveThreads\<close>): \<open>seen\<close> is the set so far.
\<close>

fun dedup_seen :: "string set \<Rightarrow> ChatMessage list \<Rightarrow> ChatMessage list" where
  "dedup_seen seen [] = []"
| "dedup_seen seen (msg # rest) =
     (if msg_id msg \<in> seen then dedup_seen seen rest
      else msg # dedup_seen (insert (msg_id msg) seen) rest)"

definition deduplicatedMessages :: "ChatThread \<Rightarrow> ChatThread" where
  "deduplicatedMessages thread = thread\<lparr> messages := dedup_seen {} (messages thread) \<rparr>"

text \<open>
  \<open>sort((a, b) => b.updatedAt.getTime() - a.updatedAt.getTime())\<close>: \<open>Array.prototype.sort\<close>
  is stable, as is the insertion sort \<open>sort_key\<close>.
\<close>

definition sort_updatedAt_desc :: "ChatThread list \<Rightarrow> ChatThread list" where
  "sort_updatedAt_desc ts = sort_key (\<lambda>t. - updatedAt t) ts"

definition loadThreads :: "string \<Rightarrow> LocalStorage \<Rightarrow> ThreadStore \<Rightarrow> ThreadStore" where
  "loadThreads userId ls state =
     (case getItem ls (getThreadsStorageKey userId) of
        None \<Rightarrow> state
      | Some Empty_Text \<Rightarrow> state
      | Some Not_Thread_Array \<Rightarrow> state
      | Some (Thread_Array parsed) \<Rightarrow>
          state\<lparr> threads := sort_updatedAt_desc (map deduplicatedMessages parsed) \<rparr>)"

text \<open>\<open>saveThreads\<close> changes the storage only; a write that throws is caught.\<close>

definition saveThreads :: "string \<Rightarrow> ThreadStore \<Rightarrow> LocalStorage \<Rightarrow> LocalStorage" where
  "saveThreads userId state ls =
     (let deduplicatedThreads = map deduplicatedMessages (threads state);
          sortedThreads = sort_updatedAt_desc deduplicatedThreads
      in case setItem ls (getThreadsStorageKey userId) (Thread_Array sortedThreads) of
           None \<Rightarrow> ls
         | Some ls' \<Rightarrow> ls')"

section \<open>services/chat.service.ts\<close>

text \<open>A JavaScript \<open>Error\<close>: its \<open>name\<close> and its \<open>message\<close>.\<close>

record js_error =
  err_name :: string
  err_message :: string

definition new_Error :: "string \<Rightarrow> js_error" where
  "new_Error m = \<lparr> err_name = ''Error'', err_message = m \<rparr>"

text \<open>A value that is thrown or rejected with: an \<open>Error\<close> object, or anything else, by its \<open>String(...)\<close>.\<close>

datatype thrown = Error_Object js_error | Other_Value string

text \<open>
  What the \<open>try\<close> block of \<open>onmessage\<close> finds in the text of an event. \<open>Throws\<close>: the
  text makes \<open>JSON.parse\<close>, or the reading of the parsed value, throw.
  \<open>Delta_Content c\<close>: the text parses and \<open>parsed.choices?.[0]?.delta?.content\<close> is \<open>c\<close>,
  with \<open>None\<close> for \<open>undefined\<close>. The parser is a parameter \<open>parse\<close> of the model.
\<close>

datatype parse_result = Throws | Delta_Content "string option"

text \<open>
  What the client does that can be observed, in order: the texts it passes to
  \<open>JSON.parse\<close> and the callbacks it invokes.
\<close>

datatype call = JSON_parse string | OnChunk string | OnComplete | OnError js_error

definition convertMessagesToOpenAIFormat :: "ChatMessage list \<Rightarrow> (ChatMessageRole \<times> string) list" where
  "convertMessagesToOpenAIFormat msgs = map (\<lambda>msg. (role msg, content msg)) msgs"

text \<open>
  The handlers that \<open>streamChatCompletion\<close> gives to \<open>fetchEventSource\<close>.
  \<open>onmessage\<close> takes the text \<open>event.data\<close> and the variable \<open>accumulatedContent\<close>
  and returns the calls made and the new \<open>accumulatedContent\<close>; \<open>if (content)\<close> is
  false for \<open>undefined\<close> and for the empty string.
\<close>

definition onmessage :: "(string \<Rightarrow> parse_result) \<Rightarrow> string \<Rightarrow> string \<Rightarrow> call list \<times> string" where
  "onmessage parse data accumulatedContent =
     (if data = ''[DONE]'' then ([], accumulatedContent)
      else
        (case parse data of
           Throws \<Rightarrow> ([JSON_parse data], accumulatedContent)
         | Delta_Content None \<Rightarrow> ([JSON_parse data], accumulatedContent)
         | Delta_Content (Some c) \<Rightarrow>
             if c \<noteq> [] then
               ([JSON_parse data, OnChunk (accumulatedContent @ c)], accumulatedContent @ c)
             else ([JSON_parse data], accumulatedContent)))"

text \<open>\<open>onerror\<close> invokes \<open>onError\<close> and throws \<open>err\<close> again: the calls and the value thrown.\<close>

definition onerror :: "thrown \<Rightarrow> call list \<times> thrown" where
  "onerror err =
     ([OnError (case err of Error_Object e \<Rightarrow> e | Other_Value s \<Rightarrow> new_Error s)], err)"

definition onclose :: "call list" where
  "onclose = [OnComplete]"

text \<open>The handler given to \<open>.catch\<close>, on the value the promise is rejected with.\<close>

definition catch_rejection :: "thrown \<Rightarrow> call list" where
  "catch_rejection err =
     (case err of
        Error_Object e \<Rightarrow> if err_name e \<noteq> ''AbortError'' then [OnError e] else []
      | Other_Value s \<Rightarrow> [])"

text \<open>
  A response that ends normally: the event source passes the events to \<open>onmessage\<close> in
  the order of arrival and, when the body has ended, calls \<open>onclose\<close>.
  \<open>accumulatedContent\<close> starts empty.
\<close>

fun deliver :: "(string \<Rightarrow> parse_result) \<Rightarrow> string list \<Rightarrow> string \<Rightarrow> call list \<times> string" where
  "deliver parse [] accumulatedContent = ([], accumulatedContent)"
| "deliver parse (data # rest) accumulatedContent =
     (let (calls, accumulated') = onmessage parse data accumulatedContent;
          (calls', accumulated'') = deliver parse rest accumulated'
      in (calls @ calls', accumulated''))"

definition stream_until_close :: "(string \<Rightarrow> parse_result) \<Rightarrow> string list \<Rightarrow> call list" where
  "stream_until_close parse events = fst (deliver parse events []) @ onclose"

section \<open>hooks/chat.hooks.ts: useChatStream\<close>

text \<open>
  A streaming session started by \<open>sendMessage\<close>: what the callbacks given to
  \<open>streamChatCompletion\<close> close over (\<open>currentThreadId\<close>, \<open>assistantMessageId\<close>,
  \<open>user.id\<close>) and the messages sent. The \<open>abort\<close> function that the service returns
  is represented by the session it aborts.
\<close>

record StreamSession =
  session_thread :: string
  session_message :: string
  session_user :: string
  session_request :: "(ChatMessageRole \<times> string) list"

text \<open>
  The state and the refs of the hook: what the setters (\<open>setIsStreaming\<close>, \<open>setError\<close>)
  and the assignments to the refs have written. A ref is read where the code reads
  it; the state is read by the next render.
\<close>

record ChatStreamState =
  isStreaming :: bool
  error :: "js_error option"
  abortRef :: "StreamSession option"
  currentMessageIdRef :: "string option"

text \<open>
  What a render of the component gives to the function \<open>sendMessage\<close> that it creates
  with \<open>useCallback\<close>: the values, at that render, of the state \<open>isStreaming\<close>, of the
  store's \<open>currentThreadId\<close> and of the auth store's \<open>user\<close> (its id, \<open>None\<close> for no
  user). A call of that function reads these captured values, whatever has been set
  since; a later render creates a new function with the new values.
\<close>

record Render =
  captured_isStreaming :: bool
  captured_currentThreadId :: "string option"
  captured_user :: "string option"

definition render :: "ChatStreamState \<Rightarrow> string option \<Rightarrow> ThreadStore \<Rightarrow> Render" where
  "render hook user state =
     \<lparr> captured_isStreaming = isStreaming hook,
       captured_currentThreadId = currentThreadId state,
       captured_user = user \<rparr>"

text \<open>
  \<open>sendMessage(content)\<close> of the render \<open>r\<close>, at the instant \<open>now\<close>. The guards and the
  thread id of \<open>addMessage\<close> and \<open>updateMessage\<close> are the captured values;
  \<open>getCurrentThread()\<close> reads the store at the call. It returns the hook state, the id
  counter, the store and the session of the stream it started, if any.
\<close>

definition sendMessage ::
  "Render \<Rightarrow> string \<Rightarrow> int \<Rightarrow> ChatStreamState \<Rightarrow> nat \<Rightarrow> ThreadStore
   \<Rightarrow> ChatStreamState \<times> nat \<times> ThreadStore \<times> StreamSession option" where
  "sendMessage r input now hook idCounter state =
     (if trim input = [] then
        (hook\<lparr> error := Some (new_Error ''Message content cannot be empty'') \<rparr>,
         idCounter, state, None)
      else
        (case captured_currentThreadId r of
           None \<Rightarrow> (hook\<lparr> error := Some (new_Error ''No active thread or user'') \<rparr>,
                    idCounter, state, None)
         | Some threadId \<Rightarrow>
            (case captured_user r of
               None \<Rightarrow> (hook\<lparr> error := Some (new_Error ''No active thread or user'') \<rparr>,
                        idCounter, state, None)
             | Some userId \<Rightarrow>
                 if threadId = [] then
                   (hook\<lparr> error := Some (new_Error ''No active thread or user'') \<rparr>,
                    idCounter, state, None)
                 else if captured_isStreaming r then
                   (hook\<lparr> error := Some (new_Error ''Already streaming a response'') \<rparr>,
                    idCounter, state, None)
                 else
                   (case getCurrentThread state of
                      None \<Rightarrow> (hook\<lparr> error := Some (new_Error ''Thread not found'') \<rparr>,
                               idCounter, state, None)
                    | Some currentThread \<Rightarrow>
                       (let hook1 = hook\<lparr> error := None, isStreaming := True \<rparr>;
                            (n1, state1) = addMessage threadId User (trim input) None now idCounter state;
                            (assistantMessageId, n2) = generateMessageId n1;
                            hook2 = hook1\<lparr> currentMessageIdRef := Some assistantMessageId \<rparr>;
                            (n3, state2) = addMessage threadId Assistant [] (Some assistantMessageId)
                                             now n2 state1
                        in case getCurrentThread state2 of
                             None \<Rightarrow>
                               (hook2\<lparr> error := Some (new_Error ''Thread not found after adding message''),
                                       isStreaming := False, currentMessageIdRef := None,
                                       abortRef := None \<rparr>,
                                n3, state2, None)
                           | Some updatedThread \<Rightarrow>
                               (let messagesForAPI =
                                      filter (\<lambda>msg. role msg \<noteq> Assistant \<or> trim (content msg) \<noteq> [])
                                             (messages updatedThread);
                                    apiMessages = convertMessagesToOpenAIFormat messagesForAPI;
                                    session = \<lparr> session_thread = threadId,
                                                session_message = assistantMessageId,
                                                session_user = userId,
                                                session_request = apiMessages \<rparr>
                                in (hook2\<lparr> abortRef := Some session \<rparr>, n3, state2, Some session)))))))"

text \<open>The callbacks that \<open>sendMessage\<close> gives to \<open>streamChatCompletion\<close>.\<close>

definition hook_onChunk :: "StreamSession \<Rightarrow> string \<Rightarrow> int \<Rightarrow> ThreadStore \<Rightarrow> ThreadStore" where
  "hook_onChunk session accumulatedContent now state =
     updateMessage (session_thread session) (session_message session) accumulatedContent now state"

definition hook_onComplete ::
  "StreamSession \<Rightarrow> ChatStreamState \<Rightarrow> ThreadStore \<Rightarrow> LocalStorage \<Rightarrow> ChatStreamState \<times> LocalStorage" where
  "hook_onComplete session hook state ls =
     (hook\<lparr> isStreaming := False, currentMessageIdRef := None, abortRef := None \<rparr>,
      saveThreads (session_user session) state ls)"

definition hook_onError :: "js_error \<Rightarrow> ChatStreamState \<Rightarrow> ChatStreamState" where
  "hook_onError err hook =
     (if err_name err = ''AbortError'' then
        hook\<lparr> isStreaming := False, currentMessageIdRef := None, abortRef := None \<rparr>
      else
        hook\<lparr> error := Some err, isStreaming := False, currentMessageIdRef := None,
               abortRef := None \<rparr>)"

text \<open>\<open>abort()\<close> of the hook: the new hook state and the session whose \<open>abort\<close> it called.\<close>

definition abort :: "ChatStreamState \<Rightarrow> ChatStreamState \<times> StreamSession option" where
  "abort hook =
     (case abortRef hook of
        None \<Rightarrow> (hook, None)
      | Some session \<Rightarrow>
          (hook\<lparr> abortRef := None, isStreaming := False, currentMessageIdRef := None \<rparr>,
           Some session))"

text \<open>
  The hook, the store and the storage together, and the effect on them of the calls
  that the client makes for a session, each at its own instant.
\<close>

record Client =
  client_hook :: ChatStreamState
  client_store :: ThreadStore
  client_storage :: LocalStorage

definition on_call :: "StreamSession \<Rightarrow> int \<times> call \<Rightarrow> Client \<Rightarrow> Client" where
  "on_call session timed client =
     (case snd timed of
        JSON_parse data \<Rightarrow> client
      | OnChunk accumulatedContent \<Rightarrow>
          client\<lparr> client_store :=
            hook_onChunk session accumulatedContent (fst timed) (client_store client) \<rparr>
      | OnComplete \<Rightarrow>
          (let (hook', ls') = hook_onComplete session (client_hook client) (client_store client)
                                (client_storage client)
           in client\<lparr> client_hook := hook', client_storage := ls' \<rparr>)
      | OnError err \<Rightarrow> client\<lparr> client_hook := hook_onError err (client_hook client) \<rparr>)"

definition run_calls :: "StreamSession \<Rightarrow> (int \<times> call) list \<Rightarrow> Client \<Rightarrow> Client" where
  "run_calls session timed client = fold (on_call session) timed client"

section \<open>Notions used to state the properties\<close>

text \<open>The messages of a thread that bear a given id.\<close>

definition messages_with_id :: "string \<Rightarrow> ChatThread \<Rightarrow> ChatMessage list" where
  "messages_with_id i thread = filter (\<lambda>msg. msg_id msg = i) (messages thread)"

text \<open>
  \<open>first_occurrences p q\<close>: thread \<open>q\<close> is thread \<open>p\<close> with, for each message id of
  \<open>p\<close>, exactly the first message of \<open>p\<close> bearing it, in the order of \<open>p\<close>.
\<close>

definition first_occurrences :: "ChatThread \<Rightarrow> ChatThread \<Rightarrow> bool" where
  "first_occurrences p q \<longleftrightarrow>
     q = p\<lparr> messages := messages q \<rparr> \<and>
     distinct (map msg_id (messages q)) \<and>
     msg_id ` set (messages q) = msg_id ` set (messages p) \<and>
     subseq (messages q) (messages p) \<and>
     (\<forall>m\<in>set (messages q). find (\<lambda>x. msg_id x = msg_id m) (messages p) = Some m)"

text \<open>The arguments of the \<open>onChunk\<close> invocations among some calls, in order.\<close>

fun onChunk_arguments :: "call list \<Rightarrow> string list" where
  "onChunk_arguments [] = []"
| "onChunk_arguments (OnChunk a # calls) = a # onChunk_arguments calls"
| "onChunk_arguments (c # calls) = onChunk_arguments calls"

text \<open>
  The text fragments carried by the successfully parsed events of a stream, in the
  order of arrival. The terminator is not parsed and carries none.
\<close>

fun fragments :: "(string \<Rightarrow> parse_result) \<Rightarrow> string list \<Rightarrow> string list" where
  "fragments parse [] = []"
| "fragments parse (data # rest) =
     (if data = ''[DONE]'' then fragments parse rest
      else case parse data of
             Delta_Content (Some f) \<Rightarrow> f # fragments parse rest
           | _ \<Rightarrow> fragments parse rest)"

definition nonempty_fragments :: "(string \<Rightarrow> parse_result) \<Rightarrow> string list \<Rightarrow> string list" where
  "nonempty_fragments parse events = filter (\<lambda>f. f \<noteq> []) (fragments parse events)"

text \<open>The content of the first message with the given id in the first thread with the given id.\<close>

definition message_content :: "ThreadStore \<Rightarrow> string \<Rightarrow> string \<Rightarrow> string option" where
  "message_content state threadId messageId =
     (case getThread state threadId of
        None \<Rightarrow> None
      | Some thread \<Rightarrow> map_option content (find (\<lambda>msg. msg_id msg = messageId) (messages thread)))"

text \<open>The invariant of the data model: within each thread, message ids are unique.\<close>

definition unique_message_ids :: "ThreadStore \<Rightarrow> bool" where
  "unique_message_ids state = list_all (\<lambda>t. distinct (map msg_id (messages t))) (threads state)"

text \<open>Descending \<open>updatedAt\<close> order: each thread is at least as recent as every later one.\<close>

definition recency_ordered :: "ChatThread list \<Rightarrow> bool" where
  "recency_ordered ts = sorted_wrt (\<lambda>a b. updatedAt b \<le> updatedAt a) ts"

subsection \<open>Concrete states\<close>

definition empty_store :: ThreadStore where
  "empty_store = \<lparr> threads = [], currentThreadId = None \<rparr>"

text \<open>After \<open>createThread()\<close> at instant 1 on the empty store, the counter at 0.\<close>

definition store_one_thread :: ThreadStore where
  "store_one_thread =
     \<lparr> threads = [\<lparr> thread_id = ''thread_1'', title = ''New Chat'', messages = [],
                     createdAt = 1, updatedAt = 1 \<rparr>],
       currentThreadId = Some ''thread_1'' \<rparr>"

text \<open>After a second \<open>createThread()\<close> at instant 2.\<close>

definition store_two_threads :: ThreadStore where
  "store_two_threads =
     \<lparr> threads = [\<lparr> thread_id = ''thread_2'', title = ''New Chat'', messages = [],
                     createdAt = 2, updatedAt = 2 \<rparr>,
                   \<lparr> thread_id = ''thread_1'', title = ''New Chat'', messages = [],
                     createdAt = 1, updatedAt = 1 \<rparr>],
       currentThreadId = Some ''thread_2'' \<rparr>"

text \<open>After \<open>addMessage('thread_1', {role: 'user', content: 'hi'})\<close> at instant 3.\<close>

definition store_after_append :: ThreadStore where
  "store_after_append =
     \<lparr> threads = [\<lparr> thread_id = ''thread_2'', title = ''New Chat'', messages = [],
                     createdAt = 2, updatedAt = 2 \<rparr>,
                   \<lparr> thread_id = ''thread_1'', title = ''hi'',
                     messages = [\<lparr> msg_id = ''msg_3'', role = User, content = ''hi'',
                                   timestamp = 3 \<rparr>],
                     createdAt = 1, updatedAt = 3 \<rparr>],
       currentThreadId = Some ''thread_2'' \<rparr>"

text \<open>After a third \<open>createThread()\<close> at instant 4.\<close>

definition store_three_threads :: ThreadStore where
  "store_three_threads =
     \<lparr> threads = [\<lparr> thread_id = ''thread_4'', title = ''New Chat'', messages = [],
                     createdAt = 4, updatedAt = 4 \<rparr>,
                   \<lparr> thread_id = ''thread_2'', title = ''New Chat'', messages = [],
                     createdAt = 2, updatedAt = 2 \<rparr>,
                   \<lparr> thread_id = ''thread_1'', title = ''hi'',
                     messages = [\<lparr> msg_id = ''msg_3'', role = User, content = ''hi'',
                                   timestamp = 3 \<rparr>],
                     createdAt = 1, updatedAt = 3 \<rparr>],
       currentThreadId = Some ''thread_4'' \<rparr>"

text \<open>
  After \<open>addMessage('thread_1', {role: 'user', content: 'a'}, '')\<close> on the store with
  one thread, once (instant 2) and twice (instant 3).
\<close>

definition store_first_append :: ThreadStore where
  "store_first_append =
     \<lparr> threads = [\<lparr> thread_id = ''thread_1'', title = ''a'',
                     messages = [\<lparr> msg_id = ''msg_2'', role = User, content = ''a'',
                                   timestamp = 2 \<rparr>],
                     createdAt = 1, updatedAt = 2 \<rparr>],
       currentThreadId = Some ''thread_1'' \<rparr>"

definition thread_second_append :: ChatThread where
  "thread_second_append =
     \<lparr> thread_id = ''thread_1'', title = ''a'',
       messages = [\<lparr> msg_id = ''msg_2'', role = User, content = ''a'', timestamp = 2 \<rparr>,
                   \<lparr> msg_id = ''msg_3'', role = User, content = ''a'', timestamp = 3 \<rparr>],
       createdAt = 1, updatedAt = 3 \<rparr>"

definition store_second_append :: ThreadStore where
  "store_second_append =
     \<lparr> threads = [thread_second_append], currentThreadId = Some ''thread_1'' \<rparr>"

text \<open>
  A stand-in for \<open>JSON.parse\<close> and the reading of \<open>choices?.[0]?.delta?.content\<close> on
  the event texts of the examples: \<open>content=...\<close> is a chunk with that content,
  \<open>role\<close> a chunk without content, anything else does not parse.
\<close>

definition example_parse :: "string \<Rightarrow> parse_result" where
  "example_parse data =
     (if take 8 data = ''content='' then Delta_Content (Some (drop 8 data))
      else if data = ''role'' then Delta_Content None
      else Throws)"

definition example_events :: "string list" where
  "example_events =
     [''role'', ''content=Hel'', ''content=lo'', ''{'', ''content=!'', ''[DONE]'']"

definition events_with_empty_fragment :: "string list" where
  "events_with_empty_fragment = [''content=a'', ''content='', ''content=b'']"

definition idle_hook :: ChatStreamState where
  "idle_hook = \<lparr> isStreaming = False, error = None, abortRef = None,
                  currentMessageIdRef = None \<rparr>"

text \<open>The render of the idle hook for user \<open>u1\<close> on the store with one thread.\<close>

definition first_render :: Render where
  "first_render = render idle_hook (Some ''u1'') store_one_thread"

text \<open>
  After \<open>sendMessage('Hi')\<close> of that render at instant 2, the counter at 1: the
  session, the hook and the store.
\<close>

definition example_session :: StreamSession where
  "example_session =
     \<lparr> session_thread = ''thread_1'', session_message = ''msg_3'', session_user = ''u1'',
       session_request = [(User, ''Hi'')] \<rparr>"

definition hook_streaming :: ChatStreamState where
  "hook_streaming = \<lparr> isStreaming = True, error = None, abortRef = Some example_session,
                       currentMessageIdRef = Some ''msg_3'' \<rparr>"

definition store_after_send :: ThreadStore where
  "store_after_send =
     \<lparr> threads = [\<lparr> thread_id = ''thread_1'', title = ''Hi'',
                     messages = [\<lparr> msg_id = ''msg_2'', role = User, content = ''Hi'',
                                   timestamp = 2 \<rparr>,
                                 \<lparr> msg_id = ''msg_3'', role = Assistant, content = [],
                                   timestamp = 2 \<rparr>],
                     createdAt = 1, updatedAt = 2 \<rparr>],
       currentThreadId = Some ''thread_1'' \<rparr>"

text \<open>
  After \<open>sendMessage('again')\<close> of the same render at instant 3, before any re-render
  and while the first stream is in flight: the session, the hook and the store.
\<close>

definition second_session :: StreamSession where
  "second_session =
     \<lparr> session_thread = ''thread_1'', session_message = ''msg_5'', session_user = ''u1'',
       session_request = [(User, ''Hi''), (User, ''again'')] \<rparr>"

definition hook_second_stream :: ChatStreamState where
  "hook_second_stream = \<lparr> isStreaming = True, error = None, abortRef = Some second_session,
                           currentMessageIdRef = Some ''msg_5'' \<rparr>"

definition store_after_second_send :: ThreadStore where
  "store_after_second_send =
     \<lparr> threads = [\<lparr> thread_id = ''thread_1'', title = ''Hi'',
                     messages = [\<lparr> msg_id = ''msg_2'', role = User, content = ''Hi'',
                                   timestamp = 2 \<rparr>,
                                 \<lparr> msg_id = ''msg_3'', role = Assistant, content = [],
                                   timestamp = 2 \<rparr>,
                                 \<lparr> msg_id = ''msg_4'', role = User, content = ''again'',
                                   timestamp = 3 \<rparr>,
                                 \<lparr> msg_id = ''msg_5'', role = Assistant, content = [],
                                   timestamp = 3 \<rparr>],
                     createdAt = 1, updatedAt = 3 \<rparr>],
       currentThreadId = Some ''thread_1'' \<rparr>"

definition empty_storage :: LocalStorage where
  "empty_storage = \<lparr> items = Map.empty, writable = True \<rparr>"

text \<open>The calls of the client on the example events, at the instants 3, 4, ...\<close>

definition example_timed :: "(int \<times> call) list" where
  "example_timed = zip (map int [3 ..< 12]) (stream_until_close example_parse example_events)"

definition example_client :: Client where
  "example_client = \<lparr> client_hook = hook_streaming, client_store = store_after_send,
                       client_storage = empty_storage \<rparr>"

text \<open>A persisted thread in which two messages bear the id \<open>msg_1\<close>.\<close>

definition thread_with_duplicate :: ChatThread where
  "thread_with_duplicate =
     \<lparr> thread_id = ''thread_1'', title = ''hi'',
       messages = [\<lparr> msg_id = ''msg_1'', role = User, content = ''hi'', timestamp = 1 \<rparr>,
                   \<lparr> msg_id = ''msg_2'', role = Assistant, content = ''hello'', timestamp = 2 \<rparr>,
                   \<lparr> msg_id = ''msg_1'', role = User, content = ''again'', timestamp = 3 \<rparr>],
       createdAt = 1, updatedAt = 3 \<rparr>"

definition storage_with_duplicate :: LocalStorage where
  "storage_with_duplicate =
     \<lparr> items = [''chat_threads_u1'' \<mapsto> Thread_Array [thread_with_duplicate]],
       writable = True \<rparr>"

definition storage_unparseable :: LocalStorage where
  "storage_unparseable =
     \<lparr> items = [''chat_threads_u1'' \<mapsto> Not_Thread_Array], writable = True \<rparr>"

section \<open>Properties of the thread store\<close>

subsection \<open>Reachability of the concrete states\<close>

lemma store_one_thread_reached:
  "createThread None 1 0 empty_store = (''thread_1'', 1, store_one_thread)"
  by code_simp

lemma store_two_threads_reached:
  "createThread None 2 1 store_one_thread = (''thread_2'', 2, store_two_threads)"
  by code_simp

lemma store_after_append_reached:
  "addMessage ''thread_1'' User ''hi'' None 3 2 store_two_threads = (3, store_after_append)"
  by code_simp

lemma store_three_threads_reached:
  "createThread None 4 3 store_after_append = (''thread_4'', 4, store_three_threads)"
  by code_simp

subsection \<open>Deduplication\<close>

lemma dedup_seen_subseq: "subseq (dedup_seen seen ms) ms"
  by (induction ms arbitrary: seen) auto

lemma dedup_seen_ids: "msg_id ` set (dedup_seen seen ms) = msg_id ` set ms - seen"
  by (induction ms arbitrary: seen) auto

lemma dedup_seen_distinct: "distinct (map msg_id (dedup_seen seen ms))"
  by (induction ms arbitrary: seen) (auto simp: dedup_seen_ids)

lemma dedup_seen_first:
  "m \<in> set (dedup_seen seen ms) \<Longrightarrow> find (\<lambda>x. msg_id x = msg_id m) ms = Some m"
proof (induction ms arbitrary: seen)
  case Nil
  then show ?case by simp
next
  case (Cons a ms)
  show ?case
  proof (cases "msg_id a = msg_id m")
    case True
    have "m \<notin> set (dedup_seen (insert (msg_id a) seen) ms)"
      using dedup_seen_ids[of "insert (msg_id a) seen" ms] True by (metis DiffD2 imageI insertI1)
    moreover have "msg_id a \<in> seen \<Longrightarrow> m \<notin> set (dedup_seen seen ms)"
      using dedup_seen_ids[of seen ms] True by (metis DiffD2 imageI)
    ultimately have "m = a" using Cons.prems by (auto split: if_splits)
    then show ?thesis by simp
  next
    case False
    then have "m \<in> set (dedup_seen seen ms) \<or> m \<in> set (dedup_seen (insert (msg_id a) seen) ms)"
      using Cons.prems by (auto split: if_splits)
    then have "find (\<lambda>x. msg_id x = msg_id m) ms = Some m"
      using Cons.IH by blast
    with False show ?thesis by simp
  qed
qed

lemma dedup_seen_unchanged:
  "distinct (map msg_id ms) \<Longrightarrow> msg_id ` set ms \<inter> seen = {} \<Longrightarrow> dedup_seen seen ms = ms"
  by (induction ms arbitrary: seen) auto

lemma deduplicatedMessages_twice:
  "deduplicatedMessages (deduplicatedMessages t) = deduplicatedMessages t"
  unfolding deduplicatedMessages_def
  by (simp add: dedup_seen_unchanged dedup_seen_distinct)

lemma first_occurrences_deduplicatedMessages: "first_occurrences p (deduplicatedMessages p)"
  unfolding first_occurrences_def deduplicatedMessages_def
  by (auto simp: dedup_seen_distinct dedup_seen_ids dedup_seen_subseq dedup_seen_first)

subsection \<open>Sorting\<close>

lemma set_sort_updatedAt_desc: "set (sort_updatedAt_desc ts) = set ts"
  by (simp add: sort_updatedAt_desc_def)

lemma sort_updatedAt_desc_twice:
  "sort_updatedAt_desc (sort_updatedAt_desc ts) = sort_updatedAt_desc ts"
  unfolding sort_updatedAt_desc_def by (simp add: sort_key_id_if_sorted)

lemma updatedAt_deduplicatedMessages: "updatedAt (deduplicatedMessages t) = updatedAt t"
  by (simp add: deduplicatedMessages_def)

lemma insort_deduplicatedMessages:
  "map deduplicatedMessages (insort_key (\<lambda>t. - updatedAt t) x xs) =
   insort_key (\<lambda>t. - updatedAt t) (deduplicatedMessages x) (map deduplicatedMessages xs)"
  by (induction xs) (auto simp: updatedAt_deduplicatedMessages)

lemma map_deduplicatedMessages_sort:
  "map deduplicatedMessages (sort_updatedAt_desc ts) =
   sort_updatedAt_desc (map deduplicatedMessages ts)"
  unfolding sort_updatedAt_desc_def by (induction ts) (auto simp: insort_deduplicatedMessages)

lemma recency_ordered_sort: "recency_ordered (sort_updatedAt_desc ts)"
proof -
  have "sorted (map (\<lambda>t. - updatedAt t) (sort_key (\<lambda>t. - updatedAt t) ts))"
    by (rule sorted_sort_key)
  then show ?thesis
    by (simp add: recency_ordered_def sort_updatedAt_desc_def sorted_map)
qed

subsection \<open>Load then save\<close>

lemma saved_after_load:
  assumes "getItem ls (getThreadsStorageKey userId) = Some (Thread_Array persisted)" "writable ls"
  shows "getItem (saveThreads userId (loadThreads userId ls state) ls) (getThreadsStorageKey userId)
         = Some (Thread_Array (sort_updatedAt_desc (map deduplicatedMessages persisted)))"
proof -
  have "map deduplicatedMessages (map deduplicatedMessages persisted) = map deduplicatedMessages persisted"
    by (simp add: deduplicatedMessages_twice)
  then show ?thesis
    using assms
    by (simp add: saveThreads_def loadThreads_def setItem_def getItem_def
          map_deduplicatedMessages_sort sort_updatedAt_desc_twice del: map_map)
qed

text \<open>
  C1. When the text stored for an owner is an array of threads and the storage accepts
  the write, \<open>loadThreads\<close> followed by \<open>saveThreads\<close> stores an array of as many threads
  in which every persisted thread appears with its other fields unchanged, one message
  per message id, the message kept for an id being the first one bearing it in the
  original order, and the kept messages in their original order.
\<close>

theorem load_save_keeps_first_occurrences:
  assumes "getItem ls (getThreadsStorageKey userId) = Some (Thread_Array persisted)"
      and "writable ls"
  shows "\<exists>saved.
     getItem (saveThreads userId (loadThreads userId ls state) ls) (getThreadsStorageKey userId)
       = Some (Thread_Array saved) \<and>
     length saved = length persisted \<and>
     (\<forall>p\<in>set persisted. \<exists>q\<in>set saved. first_occurrences p q) \<and>
     (\<forall>q\<in>set saved. \<exists>p\<in>set persisted. first_occurrences p q)"
proof -
  let ?saved = "sort_updatedAt_desc (map deduplicatedMessages persisted)"
  have "length ?saved = length persisted"
    by (simp add: sort_updatedAt_desc_def)
  moreover have "set ?saved = deduplicatedMessages ` set persisted"
    by (simp add: set_sort_updatedAt_desc)
  ultimately show ?thesis
    using saved_after_load[OF assms, of state] first_occurrences_deduplicatedMessages by auto
qed

theorem load_save_keeps_first_occurrences_witness:
  "getItem storage_with_duplicate (getThreadsStorageKey ''u1'')
     = Some (Thread_Array [thread_with_duplicate]) \<and>
   writable storage_with_duplicate \<and>
   (\<exists>saved.
     getItem (saveThreads ''u1'' (loadThreads ''u1'' storage_with_duplicate empty_store)
                storage_with_duplicate) (getThreadsStorageKey ''u1'')
       = Some (Thread_Array saved) \<and>
     length saved = length [thread_with_duplicate] \<and>
     (\<forall>p\<in>set [thread_with_duplicate]. \<exists>q\<in>set saved. first_occurrences p q) \<and>
     (\<forall>q\<in>set saved. \<exists>p\<in>set [thread_with_duplicate]. first_occurrences p q))"
proof -
  have stored: "getItem storage_with_duplicate (getThreadsStorageKey ''u1'')
                  = Some (Thread_Array [thread_with_duplicate])"
    by (simp add: getItem_def storage_with_duplicate_def getThreadsStorageKey_def)
  have accepts: "writable storage_with_duplicate"
    by (simp add: storage_with_duplicate_def)
  from load_save_keeps_first_occurrences[OF stored accepts, of empty_store] stored accepts
  show ?thesis by blast
qed

text \<open>
  What is stored in the example: of the two messages with id \<open>msg_1\<close>, the one with
  content \<open>hi\<close>, which comes first, is kept.
\<close>

lemma load_save_example:
  "getItem (saveThreads ''u1'' (loadThreads ''u1'' storage_with_duplicate empty_store)
              storage_with_duplicate) (getThreadsStorageKey ''u1'')
   = Some (Thread_Array
       [\<lparr> thread_id = ''thread_1'', title = ''hi'',
          messages = [\<lparr> msg_id = ''msg_1'', role = User, content = ''hi'', timestamp = 1 \<rparr>,
                      \<lparr> msg_id = ''msg_2'', role = Assistant, content = ''hello'', timestamp = 2 \<rparr>],
          createdAt = 1, updatedAt = 3 \<rparr>])"
  by code_simp

text \<open>
  C10. When no text is stored for the owner, or the stored text is empty or is not the
  text of an array, \<open>loadThreads\<close> returns the state it was given: the threads and the
  selection are what they were.
\<close>

theorem loadThreads_nothing_stored:
  assumes "getItem ls (getThreadsStorageKey userId) = None
         \<or> getItem ls (getThreadsStorageKey userId) = Some Empty_Text
         \<or> getItem ls (getThreadsStorageKey userId) = Some Not_Thread_Array"
  shows "loadThreads userId ls state = state"
  using assms by (auto simp: loadThreads_def)

theorem loadThreads_nothing_stored_witness:
  "getItem storage_unparseable (getThreadsStorageKey ''u1'') = Some Not_Thread_Array \<and>
   getItem storage_unparseable (getThreadsStorageKey ''u2'') = None \<and>
   loadThreads ''u1'' storage_unparseable store_two_threads = store_two_threads \<and>
   loadThreads ''u2'' storage_unparseable store_two_threads = store_two_threads"
proof -
  have unparseable: "getItem storage_unparseable (getThreadsStorageKey ''u1'') = Some Not_Thread_Array"
    by (simp add: getItem_def storage_unparseable_def getThreadsStorageKey_def)
  have absent: "getItem storage_unparseable (getThreadsStorageKey ''u2'') = None"
    by (simp add: getItem_def storage_unparseable_def getThreadsStorageKey_def)
  show ?thesis
    using unparseable absent
      loadThreads_nothing_stored[of storage_unparseable "''u1''" store_two_threads]
      loadThreads_nothing_stored[of storage_unparseable "''u2''" store_two_threads]
    by simp
qed


subsection \<open>Appending a message\<close>

lemma count_distinct:
  "distinct (map f xs) \<Longrightarrow> length (filter (\<lambda>m. f m = k) xs) = (if k \<in> f ` set xs then 1 else 0)"
  by (induction xs) auto

lemma addMessage_thread_present:
  "list_ex (\<lambda>msg. msg_id msg = msg_id m) (messages t) \<Longrightarrow> addMessage_thread threadId m now t = t"
  by (simp add: addMessage_thread_def)

lemma thread_id_addMessage_thread: "thread_id (addMessage_thread threadId m now t) = thread_id t"
  by (simp add: addMessage_thread_def Let_def)

lemma addMessage_thread_has:
  "thread_id t = threadId \<Longrightarrow>
   list_ex (\<lambda>msg. msg_id msg = msg_id m) (messages (addMessage_thread threadId m now t))"
  by (auto simp: addMessage_thread_def Let_def list_ex_iff)

lemma addMessage_thread_count:
  assumes "thread_id t = threadId" "distinct (map msg_id (messages t))"
  shows "length (messages_with_id (msg_id m) (addMessage_thread threadId m now t)) = 1"
proof (cases "msg_id m \<in> msg_id ` set (messages t)")
  case True
  then have "list_ex (\<lambda>msg. msg_id msg = msg_id m) (messages t)"
    by (auto simp: list_ex_iff)
  then have "addMessage_thread threadId m now t = t"
    by (rule addMessage_thread_present)
  with True assms(2) show ?thesis
    by (simp add: messages_with_id_def count_distinct)
next
  case False
  then have "\<not> list_ex (\<lambda>msg. msg_id msg = msg_id m) (messages t)"
    by (auto simp: list_ex_iff image_iff)
  moreover have "filter (\<lambda>msg. msg_id msg = msg_id m) (messages t) = []"
    using False by (auto simp: filter_empty_conv image_iff)
  ultimately show ?thesis
    using assms(1) by (simp add: addMessage_thread_def Let_def messages_with_id_def)
qed

text \<open>
  C2, amended. For a non-empty explicit id and a store in which the message ids of every
  thread with the given thread id are unique, a first \<open>addMessage\<close> with that id leaves
  exactly one message with the id in each such thread, and a second \<open>addMessage\<close> with
  the same id (whatever its role, content and instant) returns the state and the
  counter unchanged. The threads of the store keep their ids.
\<close>

theorem addMessage_twice_same_explicit_id:
  assumes "messageId \<noteq> []"
      and "\<forall>t\<in>set (threads state). thread_id t = threadId \<longrightarrow> distinct (map msg_id (messages t))"
  shows "case addMessage threadId r c (Some messageId) now idCounter state of (n1, s1) \<Rightarrow>
           addMessage threadId r' c' (Some messageId) now' n1 s1 = (n1, s1) \<and>
           map thread_id (threads s1) = map thread_id (threads state) \<and>
           (\<forall>t\<in>set (threads s1). thread_id t = threadId \<longrightarrow>
              length (messages_with_id messageId t) = 1)"
proof -
  let ?m = "\<lparr> msg_id = messageId, role = r, content = c, timestamp = now \<rparr>"
  let ?m' = "\<lparr> msg_id = messageId, role = r', content = c', timestamp = now' \<rparr>"
  let ?ts = "map (addMessage_thread threadId ?m now) (threads state)"
  have again: "addMessage_thread threadId ?m' now' t' = t'" if "t' \<in> set ?ts" for t'
  proof (cases "thread_id t' = threadId")
    case True
    from that obtain t where t: "t \<in> set (threads state)" "t' = addMessage_thread threadId ?m now t"
      by auto
    with True have "thread_id t = threadId"
      by (simp add: thread_id_addMessage_thread)
    with t have "list_ex (\<lambda>msg. msg_id msg = msg_id ?m') (messages t')"
      using addMessage_thread_has[of t threadId ?m now] by simp
    then show ?thesis by (rule addMessage_thread_present)
  next
    case False
    then show ?thesis by (simp add: addMessage_thread_def)
  qed
  have "map (addMessage_thread threadId ?m' now') ?ts = ?ts"
    by (rule map_idI) (rule again)
  moreover have "length (messages_with_id messageId t') = 1"
    if "t' \<in> set ?ts" "thread_id t' = threadId" for t'
  proof -
    from that(1) obtain t where t: "t \<in> set (threads state)" "t' = addMessage_thread threadId ?m now t"
      by auto
    with that(2) have "thread_id t = threadId"
      by (simp add: thread_id_addMessage_thread)
    with t show ?thesis using addMessage_thread_count[of t threadId ?m now] assms(2) by simp
  qed
  ultimately show ?thesis
    using assms(1) by (simp add: addMessage_def thread_id_addMessage_thread)
qed

theorem addMessage_twice_same_explicit_id_witness:
  "map (distinct \<circ> map msg_id \<circ> messages) (threads store_two_threads) = [True, True] \<and>
   (case addMessage ''thread_1'' Assistant [] (Some ''msg_7'') 3 2 store_two_threads of
      (n1, s1) \<Rightarrow>
        addMessage ''thread_1'' Assistant ''late'' (Some ''msg_7'') 4 n1 s1 = (n1, s1) \<and>
        map thread_id (threads s1) = map thread_id (threads store_two_threads) \<and>
        (\<forall>t\<in>set (threads s1). thread_id t = ''thread_1'' \<longrightarrow>
           length (messages_with_id ''msg_7'' t) = 1))"
proof -
  have nonempty: "''msg_7'' \<noteq> []" by simp
  have unique: "\<forall>t\<in>set (threads store_two_threads).
      thread_id t = ''thread_1'' \<longrightarrow> distinct (map msg_id (messages t))"
    by (simp add: store_two_threads_def)
  have "map (distinct \<circ> map msg_id \<circ> messages) (threads store_two_threads) = [True, True]"
    by (simp add: store_two_threads_def)
  with addMessage_twice_same_explicit_id[where r = Assistant and c = "[]" and now = 3
      and idCounter = 2 and r' = Assistant and c' = "''late''" and now' = 4, OF nonempty unique]
  show ?thesis by blast
qed

text \<open>
  C2 as stated fails for the empty explicit id: \<open>messageId || generateMessageId()\<close>
  takes the empty string as absent and generates an id. On the store with one empty
  thread and the counter at 1, the two calls append \<open>msg_2\<close> and \<open>msg_3\<close>, and no
  message bears the id that was passed.
\<close>

theorem addMessage_twice_empty_id_counterexample:
  "addMessage ''thread_1'' User ''a'' (Some []) 2 1 store_one_thread = (2, store_first_append) \<and>
   addMessage ''thread_1'' User ''a'' (Some []) 3 2 store_first_append = (3, store_second_append) \<and>
   getThread store_second_append ''thread_1'' = Some thread_second_append \<and>
   length (messages_with_id [] thread_second_append) = 0 \<and>
   length (messages thread_second_append) = 2"
  by code_simp

subsection \<open>Unique message ids are an invariant of the store\<close>

lemma distinct_addMessage_thread:
  "distinct (map msg_id (messages t)) \<Longrightarrow>
   distinct (map msg_id (messages (addMessage_thread threadId m now t)))"
  by (auto simp: addMessage_thread_def Let_def list_ex_iff)

lemma unique_message_ids_empty: "unique_message_ids empty_store"
  by (simp add: unique_message_ids_def empty_store_def)

lemma unique_message_ids_createThread:
  "unique_message_ids state \<Longrightarrow>
   unique_message_ids (snd (snd (createThread title_opt now idCounter state)))"
  by (simp add: unique_message_ids_def createThread_def uniqueId_def)

lemma unique_message_ids_addMessage:
  "unique_message_ids state \<Longrightarrow>
   unique_message_ids (snd (addMessage threadId r c messageId now idCounter state))"
  by (auto simp: unique_message_ids_def addMessage_def split_beta Let_def list_all_iff
           intro: distinct_addMessage_thread)

lemma unique_message_ids_updateMessage:
  assumes "unique_message_ids state"
  shows "unique_message_ids (updateMessage threadId messageId c now state)"
proof -
  have same_ids: "map msg_id (map (\<lambda>msg. if msg_id msg = messageId then msg\<lparr> content := c \<rparr> else msg) ms)
        = map msg_id ms" for ms
    by (induction ms) auto
  show ?thesis
    using assms
    by (auto simp: unique_message_ids_def updateMessage_def list_all_iff same_ids simp del: map_map)
qed

lemma unique_message_ids_renameThread:
  "unique_message_ids state \<Longrightarrow> unique_message_ids (renameThread threadId newTitle state)"
  by (auto simp: unique_message_ids_def renameThread_def list_all_iff)

lemma unique_message_ids_deleteThread:
  "unique_message_ids state \<Longrightarrow> unique_message_ids (deleteThread threadId state)"
  by (auto simp: unique_message_ids_def deleteThread_def Let_def list_all_iff)

lemma unique_message_ids_setCurrentThread:
  "unique_message_ids state \<Longrightarrow> unique_message_ids (setCurrentThread i state)"
  by (simp add: unique_message_ids_def setCurrentThread_def)

lemma unique_message_ids_clearThreads: "unique_message_ids (clearThreads state)"
  by (simp add: unique_message_ids_def clearThreads_def)

lemma unique_message_ids_loadThreads:
  "unique_message_ids state \<Longrightarrow> unique_message_ids (loadThreads userId ls state)"
  by (auto simp: unique_message_ids_def loadThreads_def list_all_iff set_sort_updatedAt_desc
                 deduplicatedMessages_def dedup_seen_distinct
           split: option.splits stored_text.splits)


subsection \<open>Replacing the content of a message\<close>

text \<open>
  C8, amended. When no thread with the given thread id has a message with the given
  message id, \<open>updateMessage\<close> changes nothing but the \<open>updatedAt\<close> of the threads with
  that thread id, which becomes the instant of the call: every message list, every
  other field, every other thread and the selection are unchanged.
\<close>

theorem updateMessage_unknown_message_id:
  assumes "\<forall>t\<in>set (threads state). thread_id t = threadId \<longrightarrow>
             \<not> list_ex (\<lambda>m. msg_id m = messageId) (messages t)"
  shows "updateMessage threadId messageId c now state =
     state\<lparr> threads := map (\<lambda>t. if thread_id t = threadId then t\<lparr> updatedAt := now \<rparr> else t)
                           (threads state) \<rparr>"
proof -
  have "map (\<lambda>msg. if msg_id msg = messageId then msg\<lparr> content := c \<rparr> else msg) (messages t)
        = messages t"
    if "t \<in> set (threads state)" "thread_id t = threadId" for t
    using assms that by (intro map_idI) (auto simp: list_ex_iff)
  then show ?thesis
    unfolding updateMessage_def by (auto intro!: arg_cong[where f="\<lambda>x. state\<lparr>threads := x\<rparr>"])
qed

theorem updateMessage_unknown_message_id_witness:
  "map (messages_with_id ''msg_9'') (threads store_after_append) = [[], []] \<and>
   updateMessage ''thread_1'' ''msg_9'' ''x'' 5 store_after_append =
     store_after_append\<lparr> threads :=
       map (\<lambda>t. if thread_id t = ''thread_1'' then t\<lparr> updatedAt := 5 \<rparr> else t)
           (threads store_after_append) \<rparr>"
proof -
  have unknown: "\<forall>t\<in>set (threads store_after_append). thread_id t = ''thread_1'' \<longrightarrow>
      \<not> list_ex (\<lambda>m. msg_id m = ''msg_9'') (messages t)"
    by (simp add: store_after_append_def)
  have "map (messages_with_id ''msg_9'') (threads store_after_append) = [[], []]"
    by (simp add: store_after_append_def messages_with_id_def)
  with updateMessage_unknown_message_id[where c = "''x''" and now = 5, OF unknown]
  show ?thesis by blast
qed

text \<open>
  C8 as stated fails: the thread \<open>thread_1\<close> has the single message \<open>msg_3\<close>, and
  \<open>updateMessage\<close> for the unknown id \<open>msg_9\<close> at instant 5 moves its \<open>updatedAt\<close>
  from 3 to 5.
\<close>

theorem updateMessage_unknown_message_id_counterexample:
  "map_option (map msg_id \<circ> messages) (getThread store_after_append ''thread_1'') = Some [''msg_3''] \<and>
   map_option updatedAt (getThread store_after_append ''thread_1'') = Some 3 \<and>
   map_option updatedAt
     (getThread (updateMessage ''thread_1'' ''msg_9'' ''x'' 5 store_after_append) ''thread_1'') = Some 5 \<and>
   updateMessage ''thread_1'' ''msg_9'' ''x'' 5 store_after_append \<noteq> store_after_append"
  by code_simp

subsection \<open>Recency order\<close>

lemma createThread_recency_ordered:
  assumes "recency_ordered (threads state)" "\<forall>t\<in>set (threads state). updatedAt t \<le> now"
  shows "recency_ordered (threads (snd (snd (createThread title_opt now idCounter state))))"
  using assms by (simp add: createThread_def uniqueId_def recency_ordered_def)

lemma loadThreads_recency_ordered:
  assumes "getItem ls (getThreadsStorageKey userId) = Some (Thread_Array persisted)"
  shows "recency_ordered (threads (loadThreads userId ls state))"
  using assms by (simp add: loadThreads_def recency_ordered_sort)

text \<open>
  C6 at a failing input. The store reached by two \<open>createThread\<close> calls at instants 1
  and 2 is in descending \<open>updatedAt\<close> order; \<open>addMessage\<close> on the older thread at
  instant 3 refreshes its \<open>updatedAt\<close> and leaves it in second place, so the list is no
  longer in descending order.
\<close>

theorem addMessage_breaks_recency_order:
  "recency_ordered (threads store_two_threads) \<and>
   addMessage ''thread_1'' User ''hi'' None 3 2 store_two_threads = (3, store_after_append) \<and>
   map updatedAt (threads store_after_append) = [2, 3] \<and>
   \<not> recency_ordered (threads store_after_append)"
  by code_simp

subsection \<open>Deleting a thread\<close>

lemma threads_deleteThread:
  "threads (deleteThread threadId state) = filter (\<lambda>t. thread_id t \<noteq> threadId) (threads state)"
  by (simp add: deleteThread_def Let_def)

lemma deleteThread_not_current:
  "currentThreadId state \<noteq> Some threadId \<Longrightarrow>
   currentThreadId (deleteThread threadId state) = currentThreadId state"
  by (simp add: deleteThread_def Let_def)

lemma deleteThread_current_when_recency_ordered:
  assumes "currentThreadId state = Some threadId" "recency_ordered (threads state)"
  shows "case threads (deleteThread threadId state) of
           [] \<Rightarrow> currentThreadId (deleteThread threadId state) = None
         | t # rest \<Rightarrow> currentThreadId (deleteThread threadId state) = Some (thread_id t) \<and>
                       (\<forall>u\<in>set (t # rest). updatedAt u \<le> updatedAt t)"
proof -
  have "recency_ordered (filter (\<lambda>t. thread_id t \<noteq> threadId) (threads state))"
    using assms(2) unfolding recency_ordered_def by (rule sorted_wrt_filter)
  then show ?thesis
    using assms(1)
    by (auto simp: deleteThread_def Let_def recency_ordered_def split: list.splits)
qed

text \<open>
  C7 at a failing input. In the store reached by \<open>createThread\<close>, \<open>createThread\<close>,
  \<open>addMessage\<close> on the first thread and \<open>createThread\<close> (instants 1 to 4), deleting the
  current thread \<open>thread_4\<close> selects \<open>thread_2\<close>, the first of the remaining list,
  updated at instant 2, although \<open>thread_1\<close> was updated at instant 3.
\<close>

theorem deleteThread_selects_first_remaining:
  "currentThreadId store_three_threads = Some ''thread_4'' \<and>
   currentThreadId (deleteThread ''thread_4'' store_three_threads) = Some ''thread_2'' \<and>
   map thread_id (threads (deleteThread ''thread_4'' store_three_threads)) = [''thread_2'', ''thread_1''] \<and>
   map updatedAt (threads (deleteThread ''thread_4'' store_three_threads)) = [2, 3]"
  by code_simp


section \<open>Properties of the completion stream client\<close>

lemma onmessage_sentinel: "onmessage parse ''[DONE]'' acc = ([], acc)"
  by (simp add: onmessage_def)

lemma deliver_append:
  "deliver parse (xs @ ys) acc =
     (fst (deliver parse xs acc) @ fst (deliver parse ys (snd (deliver parse xs acc))),
      snd (deliver parse ys (snd (deliver parse xs acc))))"
  by (induction xs arbitrary: acc) (auto simp: split_beta Let_def)

lemma onmessage_no_OnComplete: "OnComplete \<notin> set (fst (onmessage parse data acc))"
  by (auto simp: onmessage_def split: parse_result.splits option.splits)

lemma deliver_no_OnComplete: "OnComplete \<notin> set (fst (deliver parse events acc))"
  by (induction events arbitrary: acc) (auto simp: split_beta Let_def onmessage_no_OnComplete)

lemma onmessage_no_parse_sentinel:
  "JSON_parse ''[DONE]'' \<notin> set (fst (onmessage parse data acc))"
  by (auto simp: onmessage_def split: parse_result.splits option.splits)

lemma deliver_no_parse_sentinel:
  "JSON_parse ''[DONE]'' \<notin> set (fst (deliver parse events acc))"
  by (induction events arbitrary: acc)
     (auto simp: split_beta Let_def onmessage_no_parse_sentinel)

text \<open>
  C9. On an event whose text is the terminator, \<open>onmessage\<close> makes no call (neither
  \<open>JSON.parse\<close> nor \<open>onChunk\<close>) and leaves the accumulated content as it is; in no
  stream is the terminator passed to \<open>JSON.parse\<close>; and for a response whose last event
  is the terminator and which then ends, the calls are those of the events before it
  followed by \<open>onComplete\<close>, which is invoked exactly once.
\<close>

theorem terminator_not_parsed_and_one_onComplete:
  "onmessage parse ''[DONE]'' accumulatedContent = ([], accumulatedContent) \<and>
   JSON_parse ''[DONE]'' \<notin> set (stream_until_close parse events) \<and>
   stream_until_close parse (events @ [''[DONE]'']) = fst (deliver parse events []) @ [OnComplete] \<and>
   length (filter (\<lambda>c. c = OnComplete) (stream_until_close parse (events @ [''[DONE]'']))) = 1"
proof -
  have "filter (\<lambda>c. c = OnComplete) (fst (deliver parse events [])) = []"
    using deliver_no_OnComplete[of parse events "[]"] by (auto simp: filter_empty_conv)
  then show ?thesis
    using deliver_no_parse_sentinel[of parse events "[]"]
    by (simp add: stream_until_close_def onclose_def deliver_append onmessage_sentinel)
qed

theorem terminator_not_parsed_and_one_onComplete_witness:
  "stream_until_close example_parse example_events =
     [JSON_parse ''role'', JSON_parse ''content=Hel'', OnChunk ''Hel'',
      JSON_parse ''content=lo'', OnChunk ''Hello'', JSON_parse ''{'',
      JSON_parse ''content=!'', OnChunk ''Hello!'', OnComplete] \<and>
   length (filter (\<lambda>c. c = OnComplete)
             (stream_until_close example_parse (butlast example_events @ [''[DONE]'']))) = 1"
proof -
  have "stream_until_close example_parse example_events =
     [JSON_parse ''role'', JSON_parse ''content=Hel'', OnChunk ''Hel'',
      JSON_parse ''content=lo'', OnChunk ''Hello'', JSON_parse ''{'',
      JSON_parse ''content=!'', OnChunk ''Hello!'', OnComplete]"
    by code_simp
  moreover have "length (filter (\<lambda>c. c = OnComplete)
             (stream_until_close example_parse (butlast example_events @ [''[DONE]'']))) = 1"
    using terminator_not_parsed_and_one_onComplete[of example_parse "[]" "butlast example_events"]
    by blast
  ultimately show ?thesis by blast
qed

lemma onChunk_arguments_append:
  "onChunk_arguments (xs @ ys) = onChunk_arguments xs @ onChunk_arguments ys"
  by (induction xs rule: onChunk_arguments.induct) auto

lemma deliver_cumulative:
  "length (onChunk_arguments (fst (deliver parse events acc))) = length (nonempty_fragments parse events) \<and>
   (\<forall>i<length (nonempty_fragments parse events).
      onChunk_arguments (fst (deliver parse events acc)) ! i
        = acc @ concat (take (Suc i) (nonempty_fragments parse events))) \<and>
   snd (deliver parse events acc) = acc @ concat (nonempty_fragments parse events)"
proof (induction events arbitrary: acc)
  case Nil
  then show ?case by (simp add: nonempty_fragments_def)
next
  case (Cons data rest)
  show ?case
  proof (cases "data \<noteq> ''[DONE]'' \<and> (\<exists>c. parse data = Delta_Content (Some c) \<and> c \<noteq> [])")
    case True
    then obtain c where c: "data \<noteq> ''[DONE]''" "parse data = Delta_Content (Some c)" "c \<noteq> []"
      by blast
    then have om: "onmessage parse data acc = ([JSON_parse data, OnChunk (acc @ c)], acc @ c)"
      by (simp add: onmessage_def)
    have ne: "nonempty_fragments parse (data # rest) = c # nonempty_fragments parse rest"
      using c by (simp add: nonempty_fragments_def)
    show ?thesis
      using Cons.IH[of "acc @ c"]
      by (auto simp: om ne split_beta Let_def nth_Cons split: nat.splits)
  next
    case False
    then have om: "snd (onmessage parse data acc) = acc"
                  "onChunk_arguments (fst (onmessage parse data acc)) = []"
      by (auto simp: onmessage_def split: parse_result.splits option.splits)
    have ne: "nonempty_fragments parse (data # rest) = nonempty_fragments parse rest"
      using False by (auto simp: nonempty_fragments_def split: parse_result.splits option.splits)
    show ?thesis
      using Cons.IH[of acc]
      by (simp add: om ne split_beta Let_def onChunk_arguments_append)
  qed
qed

lemma onChunk_arguments_stream:
  "onChunk_arguments (stream_until_close parse events) = onChunk_arguments (fst (deliver parse events []))"
  by (simp add: stream_until_close_def onclose_def onChunk_arguments_append)

lemma concat_filter_nonempty: "concat (filter (\<lambda>f. f \<noteq> []) fs) = concat fs"
  by (induction fs) auto

lemma concat_nonempty_fragments:
  "concat (nonempty_fragments parse events) = concat (fragments parse events)"
  by (simp add: nonempty_fragments_def concat_filter_nonempty)

section \<open>Properties of the conversation controller\<close>

lemma find_map_option: "find P (map f xs) = map_option f (find (\<lambda>x. P (f x)) xs)"
  by (induction xs) auto

lemma message_content_updateMessage:
  "message_content (updateMessage threadId messageId c now state) threadId messageId =
     (if message_content state threadId messageId = None then None else Some c)"
proof -
  let ?g = "\<lambda>msg. if msg_id msg = messageId then msg\<lparr> content := c \<rparr> else msg"
  let ?f = "\<lambda>thread. if thread_id thread = threadId
                       then thread\<lparr> messages := map ?g (messages thread), updatedAt := now \<rparr>
                       else thread"
  have t: "getThread (updateMessage threadId messageId c now state) threadId
        = map_option ?f (getThread state threadId)"
  proof -
    have "(\<lambda>x. thread_id (?f x) = threadId) = (\<lambda>x. thread_id x = threadId)"
      by auto
    then show ?thesis
      by (simp add: getThread_def updateMessage_def find_map_option)
  qed
  have m: "find (\<lambda>msg. msg_id msg = messageId) (map ?g ms)
        = map_option (\<lambda>msg. msg\<lparr> content := c \<rparr>) (find (\<lambda>msg. msg_id msg = messageId) ms)" for ms
    by (induction ms) auto
  show ?thesis
  proof (cases "getThread state threadId")
    case None
    then show ?thesis using t by (simp add: message_content_def)
  next
    case (Some thread)
    then have "thread_id thread = threadId"
      by (auto simp: getThread_def dest: find_Some_iff[THEN iffD1])
    with Some show ?thesis
      using t by (cases "find (\<lambda>msg. msg_id msg = messageId) (messages thread)")
                 (simp_all add: message_content_def m)
  qed
qed

lemma message_content_on_call:
  "message_content (client_store (on_call session tc client)) (session_thread session) (session_message session) =
     (if message_content (client_store client) (session_thread session) (session_message session) = None then None
      else case snd tc of OnChunk a \<Rightarrow> Some a
           | _ \<Rightarrow> message_content (client_store client) (session_thread session) (session_message session))"
  by (cases "snd tc")
     (auto simp: on_call_def hook_onChunk_def hook_onComplete_def message_content_updateMessage Let_def)

lemma message_content_run_calls:
  assumes "message_content (client_store client) (session_thread session) (session_message session) \<noteq> None"
  shows "message_content (client_store (run_calls session timed client))
           (session_thread session) (session_message session) =
     (if onChunk_arguments (map snd timed) = []
      then message_content (client_store client) (session_thread session) (session_message session)
      else Some (last (onChunk_arguments (map snd timed))))"
  using assms
proof (induction timed arbitrary: client)
  case Nil
  then show ?case by (simp add: run_calls_def)
next
  case (Cons tc timed)
  let ?client' = "on_call session tc client"
  have present: "message_content (client_store ?client') (session_thread session) (session_message session) \<noteq> None"
    using Cons.prems by (simp add: message_content_on_call split: call.splits)
  have step: "run_calls session (tc # timed) client = run_calls session timed ?client'"
    by (simp add: run_calls_def)
  show ?case
    using Cons.IH[OF present] Cons.prems
    by (cases "snd tc") (auto simp: step message_content_on_call)
qed

lemma generateMessageId_nonempty: "fst (generateMessageId n) \<noteq> []"
  by (simp add: generateMessageId_def uniqueId_def)

lemma currentThreadId_addMessage:
  "currentThreadId (snd (addMessage threadId r c messageId now n state)) = currentThreadId state"
  by (simp add: addMessage_def split_beta Let_def)

lemma threads_addMessage_explicit:
  "messageId \<noteq> [] \<Longrightarrow> threads (snd (addMessage threadId r c (Some messageId) now n state))
     = map (addMessage_thread threadId \<lparr> msg_id = messageId, role = r, content = c, timestamp = now \<rparr> now)
           (threads state)"
  by (simp add: addMessage_def)

lemma message_content_addMessage_explicit:
  assumes "messageId \<noteq> []" "threadId \<noteq> []"
    and "getCurrentThread (snd (addMessage threadId r c (Some messageId) now n state)) \<noteq> None"
    and "currentThreadId state = Some threadId"
  shows "message_content (snd (addMessage threadId r c (Some messageId) now n state)) threadId messageId \<noteq> None"
proof -
  let ?state' = "snd (addMessage threadId r c (Some messageId) now n state)"
  let ?m = "\<lparr> msg_id = messageId, role = r, content = c, timestamp = now \<rparr>"
  have "currentThreadId ?state' = Some threadId"
    using assms(4) by (simp add: currentThreadId_addMessage)
  with assms(2,3) obtain thread where thread: "getThread ?state' threadId = Some thread"
    by (auto simp: getCurrentThread_def getThread_def)
  then have "thread \<in> set (threads ?state')" "thread_id thread = threadId"
    by (auto simp: getThread_def find_Some_iff)
  then have "thread \<in> addMessage_thread threadId ?m now ` set (threads state)"
    using assms(1) by (simp add: threads_addMessage_explicit)
  then obtain t where t: "thread = addMessage_thread threadId ?m now t"
    by blast
  with \<open>thread_id thread = threadId\<close> have "thread_id t = threadId"
    by (simp add: thread_id_addMessage_thread)
  with t have "list_ex (\<lambda>msg. msg_id msg = messageId) (messages thread)"
    using addMessage_thread_has[of t threadId ?m now] by simp
  then have "find (\<lambda>msg. msg_id msg = messageId) (messages thread) \<noteq> None"
    by (auto simp: list_ex_iff find_None_iff)
  with thread show ?thesis
    by (simp add: message_content_def)
qed

lemma sendMessage_started:
  assumes "sendMessage r input now hook idCounter state = (hook', n', state', Some session)"
      and "captured_currentThreadId r = currentThreadId state"
  shows "message_content state' (session_thread session) (session_message session) \<noteq> None"
proof -
  from assms(1) obtain threadId where
    cap: "captured_currentThreadId r = Some threadId" "threadId \<noteq> []"
    by (auto simp: sendMessage_def split: if_splits option.splits)
  with assms(2) have cur: "currentThreadId state = Some threadId"
    by simp
  obtain n1 state1 where a1: "addMessage threadId User (trim input) None now idCounter state = (n1, state1)"
    by (cases "addMessage threadId User (trim input) None now idCounter state")
  obtain mid n2 where g: "generateMessageId n1 = (mid, n2)"
    by (cases "generateMessageId n1")
  obtain n3 state2 where a2: "addMessage threadId Assistant [] (Some mid) now n2 state1 = (n3, state2)"
    by (cases "addMessage threadId Assistant [] (Some mid) now n2 state1")
  from assms(1) cap a1 g a2 have
    res: "state' = state2" "session_thread session = threadId" "session_message session = mid"
      "getCurrentThread state2 \<noteq> None"
    by (auto simp: sendMessage_def Let_def split: if_splits option.splits)
  have "mid \<noteq> []" using g generateMessageId_nonempty[of n1] by simp
  moreover have "currentThreadId state1 = Some threadId"
    using a1 cur currentThreadId_addMessage[of threadId User "trim input" None now idCounter state]
    by simp
  ultimately show ?thesis
    using message_content_addMessage_explicit[of mid threadId Assistant "[]" now n2 state1] a2 res cap(2)
    by simp
qed

text \<open>
  C3, amended. Let \<open>f1, ..., fn\<close> be the non-empty text fragments of the successfully
  parsed events of a response, in the order of arrival. Then \<open>onChunk\<close> is invoked \<open>n\<close>
  times and its \<open>i\<close>-th invocation receives \<open>f1 @ ... @ fi\<close>; an event whose fragment
  is absent or empty invokes nothing. When \<open>sendMessage\<close> has started the session and
  the hook has handled the calls of the response, each at any instant, and there is at
  least one non-empty fragment, the content of the placeholder message in the store
  is the concatenation of all fragments. This holds for the \<open>sendMessage\<close> of every
  render whose captured \<open>currentThreadId\<close> is the one of the store at the call, so for
  the latest render \<open>render hook user state\<close> in particular, whatever the render
  captured for \<open>isStreaming\<close> and \<open>user\<close>.
\<close>

theorem cumulative_chunk_delivery:
  "length (onChunk_arguments (stream_until_close parse events))
     = length (nonempty_fragments parse events) \<and>
   (\<forall>i<length (nonempty_fragments parse events).
      onChunk_arguments (stream_until_close parse events) ! i
        = concat (take (Suc i) (nonempty_fragments parse events))) \<and>
   (sendMessage r input now hook idCounter state = (hook', n', state', Some session) \<and>
    captured_currentThreadId r = currentThreadId state \<and>
    map snd timed = stream_until_close parse events \<and>
    nonempty_fragments parse events \<noteq> [] \<longrightarrow>
      message_content
        (client_store (run_calls session timed
           \<lparr> client_hook = hook', client_store = state', client_storage = ls \<rparr>))
        (session_thread session) (session_message session)
      = Some (concat (fragments parse events)))"
proof -
  let ?ne = "nonempty_fragments parse events"
  let ?args = "onChunk_arguments (stream_until_close parse events)"
  have len: "length ?args = length ?ne"
    and nth: "\<forall>i<length ?ne. ?args ! i = concat (take (Suc i) ?ne)"
    using deliver_cumulative[of parse events "[]"] by (simp_all add: onChunk_arguments_stream)
  have final: "message_content
        (client_store (run_calls session timed
           \<lparr> client_hook = hook', client_store = state', client_storage = ls \<rparr>))
        (session_thread session) (session_message session)
      = Some (concat (fragments parse events))"
    if started: "sendMessage r input now hook idCounter state = (hook', n', state', Some session)"
      and same_thread: "captured_currentThreadId r = currentThreadId state"
      and calls: "map snd timed = stream_until_close parse events"
      and some: "?ne \<noteq> []"
  proof -
    let ?client = "\<lparr> client_hook = hook', client_store = state', client_storage = ls \<rparr>"
    have "message_content (client_store ?client) (session_thread session) (session_message session) \<noteq> None"
      using sendMessage_started[OF started same_thread] by simp
    moreover have "?args \<noteq> []"
      using len some by auto
    ultimately have "message_content (client_store (run_calls session timed ?client))
        (session_thread session) (session_message session) = Some (last ?args)"
      using message_content_run_calls[of ?client session timed] calls by simp
    moreover have "last ?args = ?args ! (length ?ne - 1)"
      using \<open>?args \<noteq> []\<close> len by (simp add: last_conv_nth)
    moreover have "?args ! (length ?ne - 1) = concat (take (Suc (length ?ne - 1)) ?ne)"
      using nth some by simp
    moreover have "take (Suc (length ?ne - 1)) ?ne = ?ne"
      using some by simp
    ultimately show ?thesis
      by (simp add: concat_nonempty_fragments)
  qed
  from len nth final show ?thesis by blast
qed

theorem cumulative_chunk_delivery_witness:
  "sendMessage first_render ''Hi'' 2 idle_hook 1 store_one_thread
     = (hook_streaming, 3, store_after_send, Some example_session) \<and>
   captured_currentThreadId first_render = currentThreadId store_one_thread \<and>
   map snd example_timed = stream_until_close example_parse example_events \<and>
   fragments example_parse example_events = [''Hel'', ''lo'', ''!''] \<and>
   onChunk_arguments (stream_until_close example_parse example_events)
     = [''Hel'', ''Hello'', ''Hello!''] \<and>
   message_content (client_store (run_calls example_session example_timed example_client))
     ''thread_1'' ''msg_3'' = Some ''Hello!''"
proof -
  have started: "sendMessage first_render ''Hi'' 2 idle_hook 1 store_one_thread
     = (hook_streaming, 3, store_after_send, Some example_session)"
    by code_simp
  have same_thread: "captured_currentThreadId first_render = currentThreadId store_one_thread"
    by (simp add: first_render_def render_def)
  have calls: "map snd example_timed = stream_until_close example_parse example_events"
    by code_simp
  have frags: "fragments example_parse example_events = [''Hel'', ''lo'', ''!'']"
    by code_simp
  have args: "onChunk_arguments (stream_until_close example_parse example_events)
     = [''Hel'', ''Hello'', ''Hello!'']"
    by code_simp
  have some: "nonempty_fragments example_parse example_events \<noteq> []"
    by (simp add: nonempty_fragments_def frags)
  from cumulative_chunk_delivery[where parse = example_parse and events = example_events
      and r = first_render and input = "''Hi''" and now = 2 and hook = idle_hook
      and idCounter = 1 and state = store_one_thread and hook' = hook_streaming and n' = 3
      and state' = store_after_send and session = example_session and timed = example_timed
      and ls = empty_storage]
    started same_thread calls some
  have "message_content (client_store (run_calls example_session example_timed example_client))
     (session_thread example_session) (session_message example_session)
     = Some (concat (fragments example_parse example_events))"
    by (simp add: example_client_def)
  then have "message_content (client_store (run_calls example_session example_timed example_client))
     ''thread_1'' ''msg_3'' = Some ''Hello!''"
    by (simp add: frags example_session_def)
  with started same_thread calls frags args show ?thesis by blast
qed

text \<open>
  C3 as stated fails when a fragment is empty: for the fragments \<open>a\<close>, the empty
  string and \<open>b\<close>, \<open>onChunk\<close> is invoked twice and its second invocation receives
  \<open>ab\<close>, not \<open>a\<close> followed by the empty string.
\<close>

theorem cumulative_chunk_delivery_counterexample:
  "fragments example_parse events_with_empty_fragment = [''a'', [], ''b''] \<and>
   onChunk_arguments (stream_until_close example_parse events_with_empty_fragment) = [''a'', ''ab''] \<and>
   onChunk_arguments (stream_until_close example_parse events_with_empty_fragment) ! 1
     \<noteq> concat (take 2 (fragments example_parse events_with_empty_fragment))"
  by code_simp

text \<open>
  The example run to its end: the hook is idle again and the thread, with the user
  message and the completed assistant message, is in the storage.
\<close>

lemma example_run_saved:
  "client_hook (run_calls example_session example_timed example_client) = idle_hook \<and>
   getItem (client_storage (run_calls example_session example_timed example_client))
     ''chat_threads_u1''
   = Some (Thread_Array
       [\<lparr> thread_id = ''thread_1'', title = ''Hi'',
          messages = [\<lparr> msg_id = ''msg_2'', role = User, content = ''Hi'', timestamp = 2 \<rparr>,
                      \<lparr> msg_id = ''msg_3'', role = Assistant, content = ''Hello!'',
                        timestamp = 2 \<rparr>],
          createdAt = 1, updatedAt = 10 \<rparr>])"
  by code_simp

subsection \<open>One stream at a time\<close>

text \<open>
  The guard of \<open>sendMessage\<close> acts on the captured \<open>isStreaming\<close>: when the render saw
  it set, the call sets the error to one of the three validation errors (the one for
  a stream in flight when the content is not blank and the render captured a thread
  and a user) and changes nothing else.
\<close>

lemma sendMessage_guard_on_captured_flag:
  assumes "captured_isStreaming r"
  shows "\<exists>m. sendMessage r input now hook idCounter state =
              (hook\<lparr> error := Some (new_Error m) \<rparr>, idCounter, state, None) \<and>
             (m = ''Message content cannot be empty'' \<or> m = ''No active thread or user'' \<or>
              m = ''Already streaming a response'') \<and>
             (m = ''Already streaming a response'' \<longleftrightarrow>
                trim input \<noteq> [] \<and> captured_currentThreadId r \<noteq> None \<and>
                captured_currentThreadId r \<noteq> Some [] \<and> captured_user r \<noteq> None)"
  using assms by (auto simp: sendMessage_def split: option.splits)

lemma sendMessage_after_rerender_example:
  "sendMessage (render hook_streaming (Some ''u1'') store_after_send) ''again'' 3
     hook_streaming 3 store_after_send =
     (hook_streaming\<lparr> error := Some (new_Error ''Already streaming a response'') \<rparr>,
      3, store_after_send, None)"
  by code_simp

text \<open>
  C4 at a failing input. The function \<open>sendMessage\<close> of the render of the idle hook is
  called twice before the component renders again. The first call starts a stream
  (placeholder \<open>msg_3\<close>) and sets \<open>isStreaming\<close>. The second call, made while that
  stream is in flight, still reads the captured \<open>isStreaming\<close>, which is false: it
  sets no error, appends the user message \<open>msg_4\<close> and a second placeholder \<open>msg_5\<close>
  and starts a second stream.
\<close>

theorem sendMessage_twice_before_rerender:
  "sendMessage first_render ''Hi'' 2 idle_hook 1 store_one_thread
     = (hook_streaming, 3, store_after_send, Some example_session) \<and>
   isStreaming hook_streaming = True \<and>
   abortRef hook_streaming = Some example_session \<and>
   sendMessage first_render ''again'' 3 hook_streaming 3 store_after_send
     = (hook_second_stream, 5, store_after_second_send, Some second_session)"
  by code_simp

theorem sendMessage_twice_before_rerender_witness:
  "error (fst (sendMessage first_render ''again'' 3 hook_streaming 3 store_after_send)) = None \<and>
   map_option (map msg_id \<circ> messages)
     (getThread (fst (snd (snd (sendMessage first_render ''again'' 3 hook_streaming 3
                                  store_after_send)))) ''thread_1'')
     = Some [''msg_2'', ''msg_3'', ''msg_4'', ''msg_5''] \<and>
   snd (snd (snd (sendMessage first_render ''again'' 3 hook_streaming 3 store_after_send)))
     = Some second_session"
  using sendMessage_twice_before_rerender
  by (simp add: hook_second_stream_def store_after_second_send_def getThread_def)

subsection \<open>Cancellation, as far as the handlers decide it\<close>

text \<open>
  What follows an \<open>abort()\<close> is decided by the event source. The handlers themselves
  give this: a rejection with an \<open>AbortError\<close> reaches no callback through \<open>.catch\<close>,
  whereas \<open>onerror\<close> forwards whatever error it is given; the hook's \<open>onError\<close> sets
  no error for an \<open>AbortError\<close>; and the hook's \<open>abort\<close> does nothing when no session
  is held, so a second \<open>abort\<close> changes nothing.
\<close>

lemma catch_rejection_AbortError:
  "err_name e = ''AbortError'' \<Longrightarrow> catch_rejection (Error_Object e) = []"
  by (simp add: catch_rejection_def)

lemma onerror_forwards: "fst (onerror (Error_Object e)) = [OnError e]"
  by (simp add: onerror_def)

lemma hook_onError_AbortError:
  "err_name e = ''AbortError'' \<Longrightarrow> error (hook_onError e hook) = error hook"
  by (simp add: hook_onError_def)

lemma abort_twice: "abort (fst (abort hook)) = (fst (abort hook), None)"
  by (simp add: abort_def split: option.splits)

end
